theory Spec2Isabelle
  imports Main "HOL-Library.Sublist"
begin

section \<open>Strings and arrays as the TypeScript sources use them\<close>

text \<open>
  A JavaScript string is modelled as a \<^typ>\<open>string\<close>, one \<^typ>\<open>char\<close> per code unit
  (so the model covers the code units below 256). An array read \<open>xs[i]\<close> yields
  \<open>undefined\<close> out of range, which is \<open>None\<close> here; \<open>x || d\<close> takes the default for
  \<open>undefined\<close> and for the empty string, the two falsy values a string read can give.
\<close>

definition idx :: "'a list \<Rightarrow> nat \<Rightarrow> 'a option" where
  "idx xs i = (if i < length xs then Some (xs ! i) else None)"

definition truthy :: "string option \<Rightarrow> bool" where
  "truthy v = (case v of None \<Rightarrow> False | Some s \<Rightarrow> s \<noteq> [])"

definition or_else :: "string option \<Rightarrow> string \<Rightarrow> string" where
  "or_else v d = (case v of None \<Rightarrow> d | Some s \<Rightarrow> if s = [] then d else s)"

text \<open>\<open>s.split(sep)\<close> for a separator of one character: never an empty array.\<close>

fun split_on :: "char \<Rightarrow> string \<Rightarrow> string list" where
  "split_on sep [] = [[]]"
| "split_on sep (c # cs) =
     (if c = sep then [] # split_on sep cs
      else (case split_on sep cs of
              [] \<Rightarrow> [[c]]
            | l # ls \<Rightarrow> (c # l) # ls))"

text \<open>\<open>s.startsWith(p)\<close> and \<open>s.includes(needle)\<close>.\<close>

definition startsWith :: "string \<Rightarrow> string \<Rightarrow> bool" where
  "startsWith s p = prefix p s"

fun includes_str :: "string \<Rightarrow> string \<Rightarrow> bool" where
  "includes_str [] needle = (needle = [])"
| "includes_str (c # cs) needle = (prefix needle (c # cs) \<or> includes_str cs needle)"

section \<open>The queue (src/events/queue.ts)\<close>

record 'p QueueItem =
  item_id :: string
  item_type :: string
  item_payload :: 'p

text \<open>The two module-level values \<open>seen\<close> and \<open>q\<close>, passed explicitly.\<close>

record 'p queue_state =
  seen :: "string set"
  q :: "'p QueueItem list"

definition init_queue :: "'p queue_state" where
  "init_queue = \<lparr>seen = {}, q = []\<rparr>"

definition enqueue :: "'p QueueItem \<Rightarrow> 'p queue_state \<Rightarrow> bool \<times> 'p queue_state" where
  "enqueue item s =
     (if item_id item \<in> seen s then (False, s)
      else (True, s\<lparr>seen := insert (item_id item) (seen s), q := q s @ [item]\<rparr>))"

text \<open>\<open>q.shift()\<close>: the first element, or \<open>undefined\<close> on an empty array.\<close>

definition dequeue :: "'p queue_state \<Rightarrow> 'p QueueItem option \<times> 'p queue_state" where
  "dequeue s = (case q s of [] \<Rightarrow> (None, s) | x # xs \<Rightarrow> (Some x, s\<lparr>q := xs\<rparr>))"

definition size_q :: "'p queue_state \<Rightarrow> nat" where
  "size_q s = length (q s)"

text \<open>A caller's sequence of queue operations, results dropped.\<close>

datatype 'p queue_op = Enqueue "'p QueueItem" | Dequeue

fun queue_step :: "'p queue_op \<Rightarrow> 'p queue_state \<Rightarrow> 'p queue_state" where
  "queue_step (Enqueue item) s = snd (enqueue item s)"
| "queue_step Dequeue s = snd (dequeue s)"

fun queue_run :: "'p queue_op list \<Rightarrow> 'p queue_state \<Rightarrow> 'p queue_state" where
  "queue_run [] s = s"
| "queue_run (op # ops) s = queue_run ops (queue_step op s)"

text \<open>Enqueue a batch in order, keeping each result; dequeue \<open>n\<close> times, keeping each result.\<close>

fun enqueue_all :: "'p QueueItem list \<Rightarrow> 'p queue_state \<Rightarrow> bool list \<times> 'p queue_state" where
  "enqueue_all [] s = ([], s)"
| "enqueue_all (item # items) s =
     (case enqueue item s of (r, s') \<Rightarrow>
        (case enqueue_all items s' of (rs, s'') \<Rightarrow> (r # rs, s'')))"

fun dequeue_n :: "nat \<Rightarrow> 'p queue_state \<Rightarrow> 'p QueueItem option list \<times> 'p queue_state" where
  "dequeue_n 0 s = ([], s)"
| "dequeue_n (Suc n) s =
     (case dequeue s of (r, s') \<Rightarrow>
        (case dequeue_n n s' of (rs, s'') \<Rightarrow> (r # rs, s'')))"

section \<open>The normalizer (src/scripts/hl7-ingest.ts)\<close>

datatype event_type = Admission | Discharge | Transfer | Update

record patient_name =
  family :: string
  given :: string

record event_data =
  messageType :: string
  patientMRN :: string
  patientName :: patient_name
  patientDOB :: string
  patientGender :: string
  location :: string
  attendingPhysician :: string

record event_metadata =
  originalHL7 :: string
  processedAt :: string
  source :: string

record NormalizedEvent =
  ev_id :: string
  ev_type :: event_type
  patientId :: string
  facilityId :: string
  timestamp :: string
  data :: event_data
  metadata :: event_metadata

text \<open>
  What one run of the normalizer reads from outside its argument, in the order it reads
  it: \<open>Date.now()\<close>, \<open>Math.random().toString(36)\<close>, and the two
  \<open>new Date().toISOString()\<close> strings (\<open>timestamp\<close>, then \<open>processedAt\<close>).
\<close>

record run_env =
  now_ms :: nat
  random36 :: string
  iso_timestamp :: string
  iso_processedAt :: string

datatype js_error = TypeError

text \<open>The decimal digits of a number, as a template literal prints it.\<close>

function decimal :: "nat \<Rightarrow> string" where
  "decimal n =
     (if n < 10 then [''0123456789'' ! n]
      else decimal (n div 10) @ [''0123456789'' ! (n mod 10)])"
  by pat_completeness auto
termination
  by (relation "measure id") auto

declare decimal.simps [simp del]

text \<open>\<open>lines.find(line => line.startsWith(tag))?.split('|') || []\<close>\<close>

definition find_segment :: "string \<Rightarrow> string list \<Rightarrow> string list" where
  "find_segment tag lines =
     (case find (\<lambda>line. startsWith line tag) lines of
        None \<Rightarrow> []
      | Some line \<Rightarrow> split_on CHR ''|'' line)"

text \<open>
  \<open>parseHL7Message\<close> of src/scripts/hl7-ingest.ts. The one statement that could throw is
  \<open>lines[0].split('|')\<close>, a \<open>TypeError\<close> if \<open>lines\<close> had no element.
\<close>

definition parseHL7Message :: "run_env \<Rightarrow> string \<Rightarrow> js_error + NormalizedEvent" where
  "parseHL7Message env hl7 =
     (let lines = split_on (CHR 0x0A) hl7 in
      case lines of
        [] \<Rightarrow> Inl TypeError
      | first # _ \<Rightarrow>
          (let mshSegment = split_on CHR ''|'' first;
               pidSegment = find_segment ''PID'' lines;
               pv1Segment = find_segment ''PV1'' lines;
               messageType = or_else (idx mshSegment 8) ''ADT^A01'';
               patientName =
                 (case idx pidSegment 5 of
                    None \<Rightarrow> [[], []]
                  | Some s \<Rightarrow> if s = [] then [[], []] else split_on CHR ''^'' s)
           in Inr \<lparr>
                ev_id = ''evt_'' @ decimal (now_ms env) @ ''_'' @ take 9 (drop 2 (random36 env)),
                ev_type = (if includes_str messageType ''A01'' then Admission else Update),
                patientId = or_else (idx pidSegment 3) ''unknown'',
                facilityId = or_else (idx mshSegment 4) ''FACILITY_001'',
                timestamp = iso_timestamp env,
                data = \<lparr>
                  messageType = messageType,
                  patientMRN = or_else (idx pidSegment 3) [],
                  patientName = \<lparr>
                    family = or_else (idx patientName 0) [],
                    given = or_else (idx patientName 1) []\<rparr>,
                  patientDOB = or_else (idx pidSegment 7) [],
                  patientGender = or_else (idx pidSegment 8) [],
                  location = or_else (idx pv1Segment 3) [],
                  attendingPhysician = or_else (idx pv1Segment 7) []\<rparr>,
                metadata = \<lparr>
                  originalHL7 = hl7,
                  processedAt = iso_processedAt env,
                  source = ''hl7-ingest''\<rparr>\<rparr>))"


definition first_line :: "string \<Rightarrow> string" where
  "first_line hl7 = takeWhile (\<lambda>c. c \<noteq> CHR 0x0A) hl7"

subsection \<open>The ESM variant of the normalizer (HL7 Ingest, TypeScript, ESM)\<close>

text \<open>\<open>s.trim()\<close>: the white space and line terminators among the code units below 256.\<close>

definition js_whitespace :: "char \<Rightarrow> bool" where
  "js_whitespace c =
     (c \<in> {CHR 0x09, CHR 0x0A, CHR 0x0B, CHR 0x0C, CHR 0x0D, CHR 0x20, CHR 0xA0})"

definition trim :: "string \<Rightarrow> string" where
  "trim s = rev (dropWhile js_whitespace (rev (dropWhile js_whitespace s)))"

text \<open>\<open>s.split(/\r?\n/)\<close>: a cut at every line feed, taking a carriage return just before it.\<close>

fun split_lines :: "string \<Rightarrow> string list" where
  "split_lines [] = [[]]"
| "split_lines (c # cs) =
     (if c = CHR 0x0D \<and> (case cs of [] \<Rightarrow> False | d # _ \<Rightarrow> d = CHR 0x0A)
        then [] # split_lines (tl cs)
      else if c = CHR 0x0A then [] # split_lines cs
      else (case split_lines cs of
              [] \<Rightarrow> [[c]]
            | l # ls \<Rightarrow> (c # l) # ls))"

text \<open>\<open>(lines.find(l => l.startsWith(tag)) ?? "").split("|")\<close>\<close>

definition find_segment_esm :: "string \<Rightarrow> string list \<Rightarrow> string list" where
  "find_segment_esm tag lines =
     split_on CHR ''|''
       (case find (\<lambda>l. startsWith l tag) lines of None \<Rightarrow> [] | Some l \<Rightarrow> l)"

text \<open>The constant \<open>eventType\<close> of the ESM variant, as a function of \<open>msgType\<close>.\<close>

definition eventType :: "string \<Rightarrow> event_type" where
  "eventType msgType =
     (if includes_str msgType ''A01'' then Admission
      else if includes_str msgType ''A03'' then Discharge
      else if includes_str msgType ''A02'' then Transfer
      else Update)"

definition parseHL7Message_esm :: "run_env \<Rightarrow> string \<Rightarrow> NormalizedEvent" where
  "parseHL7Message_esm env hl7 =
     (let lines = split_lines (trim hl7);
          msh = find_segment_esm ''MSH'' lines;
          pid = find_segment_esm ''PID'' lines;
          pv1 = find_segment_esm ''PV1'' lines;
          msgType = or_else (idx msh 8) ''ADT^A01'';
          mrn = or_else (idx pid 3) ''MRN_UNKNOWN'';
          nameParts = split_on CHR ''^'' (or_else (idx pid 5) ''^'');
          controlId = or_else (idx msh 9) (''MSG'' @ decimal (now_ms env))
      in \<lparr>
           ev_id = ''evt_'' @ controlId,
           ev_type = eventType msgType,
           patientId = mrn,
           facilityId = or_else (idx msh 4) ''FACILITY_001'',
           timestamp = iso_timestamp env,
           data = \<lparr>
             messageType = msgType,
             patientMRN = mrn,
             patientName = \<lparr>
               family = or_else (idx nameParts 0) [],
               given = or_else (idx nameParts 1) []\<rparr>,
             patientDOB = or_else (idx pid 7) [],
             patientGender = or_else (idx pid 8) [],
             location = or_else (idx pv1 3) [],
             attendingPhysician = or_else (idx pv1 7) []\<rparr>,
           metadata = \<lparr>
             originalHL7 = hl7,
             processedAt = iso_processedAt env,
             source = ''hl7-ingest''\<rparr>\<rparr>)"

section \<open>The policy gate (src/scripts/agent-orchestrator.ts)\<close>

text \<open>
  \<open>validateEventPolicy\<close> on an event of the declared type \<open>NormalizedEvent\<close>. The
  calls of \<open>log\<close>, here and in the orchestrator, write to the console and are left out.
  The \<open>metadata\<close> of a result is a list of keys with a string or a number.
\<close>

datatype meta_value = MString string | MNumber nat

record PolicyResult =
  allowed :: bool
  reason :: string
  result_metadata :: "(string \<times> meta_value) list"

text \<open>One entry of \<open>policies\<close>: \<open>name\<close>, the thunk \<open>check\<close>, \<open>reason\<close>.\<close>

record policy =
  pname :: string
  pcheck :: "unit \<Rightarrow> bool"
  preason :: string

text \<open>
  On a string, \<open>!!s && s.length > 0\<close> and \<open>!!s && s.includes("ADT")\<close> first ask that
  \<open>s\<close> is not empty.
\<close>

definition policies :: "NormalizedEvent \<Rightarrow> policy list" where
  "policies event =
     [\<lparr>pname = ''patient-mrn-required'',
       pcheck = (\<lambda>_. patientMRN (data event) \<noteq> [] \<and> length (patientMRN (data event)) > 0),
       preason = ''Patient MRN is required''\<rparr>,
      \<lparr>pname = ''valid-message-type'',
       pcheck = (\<lambda>_. messageType (data event) \<noteq> []
                      \<and> includes_str (messageType (data event)) ''ADT''),
       preason = ''Invalid message type - must be ADT''\<rparr>,
      \<lparr>pname = ''facility-whitelist'',
       pcheck = (\<lambda>_. facilityId event \<in> set [''FACILITY_001'', ''FACILITY_002'']),
       preason = ''Facility not in whitelist''\<rparr>]"

text \<open>The \<open>for\<close> loop: \<open>Some\<close> is its early \<open>return\<close>, \<open>None\<close> is falling through.\<close>

fun policy_loop :: "policy list \<Rightarrow> PolicyResult option" where
  "policy_loop [] = None"
| "policy_loop (p # ps) =
     (if \<not> pcheck p () then
        Some \<lparr>allowed = False, reason = preason p,
              result_metadata = [(''violatedPolicy'', MString (pname p))]\<rparr>
      else policy_loop ps)"

definition validateEventPolicy :: "NormalizedEvent \<Rightarrow> PolicyResult" where
  "validateEventPolicy event =
     (case policy_loop (policies event) of
        Some r \<Rightarrow> r
      | None \<Rightarrow>
          \<lparr>allowed = True, reason = ''All policies passed'',
           result_metadata = [(''policiesChecked'', MNumber (length (policies event)))]\<rparr>)"

section \<open>The metrics sink (src/observability/metrics.ts)\<close>

text \<open>
  \<open>counters\<close> is a plain object, declared \<open>Record<string, number>\<close>. Reading
  \<open>counters[key]\<close> looks at the object's own properties first and then at the properties
  every object inherits from \<open>Object.prototype\<close>, so what a read or a write handles is
  a number, a string, or an inherited function or object, named here by its key.
\<close>

datatype counter_value = Num nat | Str string | Inherited string

text \<open>The own properties of a counters object.\<close>

type_synonym Counters = "string \<rightharpoonup> counter_value"

text \<open>The property names of \<open>Object.prototype\<close> (Node 20, which the repository pins).\<close>

definition object_prototype_keys :: "string list" where
  "object_prototype_keys =
     [''constructor'', ''__defineGetter__'', ''__defineSetter__'', ''hasOwnProperty'',
      ''__lookupGetter__'', ''__lookupSetter__'', ''isPrototypeOf'', ''propertyIsEnumerable'',
      ''toString'', ''valueOf'', ''__proto__'', ''toLocaleString'']"

text \<open>
  The string an inherited value turns into under \<open>+\<close>: the prototype object itself for
  \<open>__proto__\<close>, the text of a native function for the others.
\<close>

definition inherited_text :: "string \<Rightarrow> string" where
  "inherited_text key =
     (if key = ''__proto__'' then ''[object Object]''
      else ''function '' @ (if key = ''constructor'' then ''Object'' else key)
           @ ''() { [native code] }'')"

text \<open>\<open>counters[key]\<close> as a read; \<open>None\<close> is \<open>undefined\<close>.\<close>

definition get_prop :: "Counters \<Rightarrow> string \<Rightarrow> counter_value option" where
  "get_prop c key =
     (case c key of
        Some v \<Rightarrow> Some v
      | None \<Rightarrow> if key \<in> set object_prototype_keys then Some (Inherited key) else None)"

text \<open>
  \<open>n + 1\<close> on the numbers a counter reaches from 0: they are doubles, exact up to
  \<open>2^53\<close>, where adding 1 rounds back to \<open>2^53\<close>.
\<close>

definition js_add1 :: "nat \<Rightarrow> nat" where
  "js_add1 n = (if n < 2 ^ 53 then n + 1 else n)"

text \<open>
  \<open>(v || 0) + 1\<close>: \<open>undefined\<close>, 0 and the empty string give way to 0; a number is
  added to, anything else is turned into a string and \<open>1\<close> appended.
\<close>

definition plus1 :: "counter_value option \<Rightarrow> counter_value" where
  "plus1 v =
     (case v of
        None \<Rightarrow> Num (js_add1 0)
      | Some (Num n) \<Rightarrow> Num (js_add1 n)
      | Some (Str s) \<Rightarrow> if s = [] then Num (js_add1 0) else Str (s @ ''1'')
      | Some (Inherited k) \<Rightarrow> Str (inherited_text k @ ''1''))"

text \<open>
  \<open>counters[key] = (counters[key] || 0) + 1\<close> on the object \<open>c\<close>. The write makes an own
  property, except under \<open>__proto__\<close>, where it reaches the inherited setter, which
  ignores a number or a string.
\<close>

definition bump :: "Counters \<Rightarrow> string \<Rightarrow> Counters" where
  "bump c key =
     (let v = plus1 (get_prop c key)
      in if key = ''__proto__'' \<and> c key = None then c else c(key \<mapsto> v))"

text \<open>
  The objects of the module: the module-level \<open>counters\<close>, which \<open>inc\<close> mutates in
  place, and the objects that calls of \<open>snapshot\<close> have created, in order of creation.
  A reference names one of them.
\<close>

datatype counters_ref = CountersRef | SnapshotRef nat

record metrics_store =
  counters :: Counters
  snapshots :: "Counters list"

definition init_metrics :: metrics_store where
  "init_metrics = \<lparr>counters = Map.empty, snapshots = []\<rparr>"

definition deref :: "metrics_store \<Rightarrow> counters_ref \<Rightarrow> Counters option" where
  "deref h r = (case r of CountersRef \<Rightarrow> Some (counters h) | SnapshotRef i \<Rightarrow> idx (snapshots h) i)"

definition inc :: "string \<Rightarrow> metrics_store \<Rightarrow> metrics_store" where
  "inc key h = h\<lparr>counters := bump (counters h) key\<rparr>"

text \<open>\<open>({ ...counters })\<close>: a new object holding the own properties of \<open>counters\<close>.\<close>

definition snapshot :: "metrics_store \<Rightarrow> counters_ref \<times> metrics_store" where
  "snapshot h =
     (SnapshotRef (length (snapshots h)), h\<lparr>snapshots := snapshots h @ [counters h]\<rparr>)"

datatype metrics_op = Inc string | Snapshot

fun metrics_step :: "metrics_op \<Rightarrow> metrics_store \<Rightarrow> metrics_store" where
  "metrics_step (Inc key) h = inc key h"
| "metrics_step Snapshot h = snd (snapshot h)"

fun metrics_run :: "metrics_op list \<Rightarrow> metrics_store \<Rightarrow> metrics_store" where
  "metrics_run [] h = h"
| "metrics_run (op # ops) h = metrics_run ops (metrics_step op h)"

text \<open>
  Two readings of one key, an earlier and a later one, are counts that do not decrease:
  each is \<open>undefined\<close> (nothing counted yet) or a number, and the later is no less.
\<close>

fun count_le :: "counter_value option \<Rightarrow> counter_value option \<Rightarrow> bool" where
  "count_le None None = True"
| "count_le None (Some (Num n)) = True"
| "count_le (Some (Num m)) (Some (Num n)) = (m \<le> n)"
| "count_le _ _ = False"

section \<open>The orchestrator (src/scripts/agent-orchestrator.ts)\<close>

text \<open>
  \<open>asEvent\<close> is a cast without a check, so what \<open>processEvent\<close> receives at run time
  is a value whose parts may be missing or of another type. A part the code reads holds
  \<open>undefined\<close>, \<open>null\<close>, a string, a number (only its being zero matters) or a boolean;
  \<open>data\<close> and \<open>data.patientName\<close> are there or not, \<open>None\<close> standing for
  \<open>undefined\<close> and \<open>null\<close>, on which a property read throws. A payload that is no
  object behaves as an event without \<open>data\<close>. The fields that are only printed
  (\<open>id\<close>, \<open>type\<close>) are left out.
\<close>

datatype js_value = JUndefined | JNull | JString string | JNumber int | JBoolean bool

record unchecked_data =
  u_messageType :: js_value
  u_patientMRN :: js_value
  u_patientName :: "patient_name option"

record unchecked_event =
  u_facilityId :: js_value
  u_data :: "unchecked_data option"

text \<open>An event of the declared type, as the value it is at run time.\<close>

definition as_unchecked :: "NormalizedEvent \<Rightarrow> unchecked_event" where
  "as_unchecked ev =
     \<lparr>u_facilityId = JString (facilityId ev),
      u_data = Some \<lparr>u_messageType = JString (messageType (data ev)),
                     u_patientMRN = JString (patientMRN (data ev)),
                     u_patientName = Some (patientName (data ev))\<rparr>\<rparr>"

text \<open>\<open>!!v\<close>, and \<open>v.length > 0\<close> on a truthy \<open>v\<close> (only a string has a length).\<close>

definition js_truthy :: "js_value \<Rightarrow> bool" where
  "js_truthy v =
     (case v of
        JUndefined \<Rightarrow> False
      | JNull \<Rightarrow> False
      | JString s \<Rightarrow> s \<noteq> []
      | JNumber n \<Rightarrow> n \<noteq> 0
      | JBoolean b \<Rightarrow> b)"

definition js_length_positive :: "js_value \<Rightarrow> bool" where
  "js_length_positive v = (case v of JString s \<Rightarrow> length s > 0 | _ \<Rightarrow> False)"

text \<open>
  \<open>validateEventPolicy\<close> on the run-time value. A check can throw: reading a field of a
  missing \<open>data\<close>, or calling \<open>includes\<close> on a truthy message type that is no string.
\<close>

record runtime_policy =
  rt_name :: string
  rt_check :: "unit \<Rightarrow> js_error + bool"
  rt_reason :: string

definition runtime_policies :: "unchecked_event \<Rightarrow> runtime_policy list" where
  "runtime_policies event =
     [\<lparr>rt_name = ''patient-mrn-required'',
       rt_check = (\<lambda>_. case u_data event of
                          None \<Rightarrow> Inl TypeError
                        | Some d \<Rightarrow> Inr (js_truthy (u_patientMRN d)
                                         \<and> js_length_positive (u_patientMRN d))),
       rt_reason = ''Patient MRN is required''\<rparr>,
      \<lparr>rt_name = ''valid-message-type'',
       rt_check = (\<lambda>_. case u_data event of
                          None \<Rightarrow> Inl TypeError
                        | Some d \<Rightarrow>
                            if \<not> js_truthy (u_messageType d) then Inr False
                            else (case u_messageType d of
                                    JString s \<Rightarrow> Inr (includes_str s ''ADT'')
                                  | _ \<Rightarrow> Inl TypeError)),
       rt_reason = ''Invalid message type - must be ADT''\<rparr>,
      \<lparr>rt_name = ''facility-whitelist'',
       rt_check = (\<lambda>_. Inr (u_facilityId event
                              \<in> set [JString ''FACILITY_001'', JString ''FACILITY_002''])),
       rt_reason = ''Facility not in whitelist''\<rparr>]"

fun runtime_policy_loop :: "runtime_policy list \<Rightarrow> js_error + PolicyResult option" where
  "runtime_policy_loop [] = Inr None"
| "runtime_policy_loop (p # ps) =
     (case rt_check p () of
        Inl err \<Rightarrow> Inl err
      | Inr ok \<Rightarrow>
          if \<not> ok then
            Inr (Some \<lparr>allowed = False, reason = rt_reason p,
                       result_metadata = [(''violatedPolicy'', MString (rt_name p))]\<rparr>)
          else runtime_policy_loop ps)"

definition validateEventPolicy_runtime :: "unchecked_event \<Rightarrow> js_error + PolicyResult" where
  "validateEventPolicy_runtime event =
     (case runtime_policy_loop (runtime_policies event) of
        Inl err \<Rightarrow> Inl err
      | Inr (Some r) \<Rightarrow> Inr r
      | Inr None \<Rightarrow>
          Inr \<lparr>allowed = True, reason = ''All policies passed'',
               result_metadata =
                 [(''policiesChecked'', MNumber (length (runtime_policies event)))]\<rparr>)"

text \<open>The four tallies of \<open>ProcessingMetrics\<close>; the clock fields are left out.\<close>

record ProcessingMetrics =
  eventsProcessed :: nat
  policyViolations :: nat
  successCount :: nat
  errorCount :: nat

text \<open>
  \<open>processEvent\<close>. The three \<open>log\<close> statements before the \<open>try\<close> block read
  \<open>event.data.patientName.given\<close> and \<open>.family\<close>: a \<open>TypeError\<close> there leaves the
  function, nothing counted. Inside the \<open>try\<close> block a throw of the policy evaluation
  goes to the \<open>catch\<close> block, which counts an error; a rejection counts a violation and
  an error and returns; otherwise a success is counted. The \<open>finally\<close> block runs in
  all three cases.
\<close>

definition processEvent ::
  "unchecked_event \<Rightarrow> ProcessingMetrics \<times> metrics_store
     \<Rightarrow> js_error + ProcessingMetrics \<times> metrics_store" where
  "processEvent event st =
     (case st of (metrics, h) \<Rightarrow>
        (case u_data event of
           None \<Rightarrow> Inl TypeError
         | Some d \<Rightarrow>
             (case u_patientName d of
                None \<Rightarrow> Inl TypeError
              | Some _ \<Rightarrow>
                  (let metrics' =
                         (case validateEventPolicy_runtime event of
                            Inl err \<Rightarrow> metrics\<lparr>errorCount := errorCount metrics + 1\<rparr>
                          | Inr policy \<Rightarrow>
                              if \<not> allowed policy then
                                metrics\<lparr>policyViolations := policyViolations metrics + 1,
                                        errorCount := errorCount metrics + 1\<rparr>
                              else metrics\<lparr>successCount := successCount metrics + 1\<rparr>)
                   in Inr (metrics'\<lparr>eventsProcessed := eventsProcessed metrics' + 1\<rparr>,
                           inc ''processed'' h)))))"

definition init_processing :: ProcessingMetrics where
  "init_processing =
     \<lparr>eventsProcessed = 0, policyViolations = 0, successCount = 0, errorCount = 0\<rparr>"

text \<open>
  \<open>for (const ev of events) processEvent(ev, metrics)\<close> of \<open>runOrchestrator\<close>: a throw
  out of \<open>processEvent\<close> ends the loop and the run.
\<close>

fun process_events ::
  "unchecked_event list \<Rightarrow> ProcessingMetrics \<times> metrics_store
     \<Rightarrow> js_error + ProcessingMetrics \<times> metrics_store" where
  "process_events [] st = Inr st"
| "process_events (ev # events) st =
     (case processEvent ev st of
        Inl err \<Rightarrow> Inl err
      | Inr st' \<Rightarrow> process_events events st')"

definition runOrchestrator ::
  "unchecked_event list \<Rightarrow> metrics_store \<Rightarrow> js_error + ProcessingMetrics \<times> metrics_store" where
  "runOrchestrator events h = process_events events (init_processing, h)"

text \<open>
  What happens to one event: the reads before the \<open>try\<close> block succeed; the policies
  reject it, allow it, or their evaluation throws.
\<close>

definition readable :: "unchecked_event \<Rightarrow> bool" where
  "readable event =
     (case u_data event of None \<Rightarrow> False | Some d \<Rightarrow> u_patientName d \<noteq> None)"


definition accepted :: "unchecked_event \<Rightarrow> bool" where
  "accepted event =
     (case validateEventPolicy_runtime event of Inl _ \<Rightarrow> False | Inr r \<Rightarrow> allowed r)"


section \<open>The eval harness (src/evals/eval.ts)\<close>

definition ascii_lower :: "char \<Rightarrow> char" where
  "ascii_lower c =
     (let n = (of_char c :: nat) in if 65 \<le> n \<and> n \<le> 90 then char_of (n + 32) else c)"

text \<open>The characters \<open>.\<close> does not match, among the code units below 256.\<close>

definition line_terminator :: "char \<Rightarrow> bool" where
  "line_terminator c = (c = CHR 0x0A \<or> c = CHR 0x0D)"

text \<open>
  \<open>rule.match(/^contains:(.+)$/i)\<close>: \<open>None\<close> for no match, else the capture group
  \<open>m[1]\<close>. The pattern is anchored at both ends, so it matches when the first nine
  characters are \<open>contains:\<close> in either case and the rest is one or more characters,
  none a line terminator.
\<close>

definition match_contains :: "string \<Rightarrow> string option" where
  "match_contains rule =
     (if map ascii_lower (take 9 rule) = ''contains:''
         \<and> drop 9 rule \<noteq> []
         \<and> \<not> list_ex line_terminator (drop 9 rule)
      then Some (drop 9 rule) else None)"

definition evaluateRule :: "string \<Rightarrow> string \<Rightarrow> bool" where
  "evaluateRule rule payload =
     (case match_contains rule of
        None \<Rightarrow> False
      | Some needle \<Rightarrow> includes_str payload needle)"

record Task =
  name :: string
  rule :: string
  expect :: bool

text \<open>
  The rules the regular expression is said to accept: \<open>contains:\<close>, in either case,
  followed by a suffix that is not empty.
\<close>

definition contains_pattern :: "string \<Rightarrow> bool" where
  "contains_pattern r = (map ascii_lower (take 9 r) = ''contains:'' \<and> drop 9 r \<noteq> [])"

text \<open>The loop over \<open>doc.tasks\<close>, with the two counters \<open>pass\<close> and \<open>fail\<close>.\<close>

fun eval_loop :: "Task list \<Rightarrow> string \<Rightarrow> nat \<times> nat \<Rightarrow> nat \<times> nat" where
  "eval_loop [] payload acc = acc"
| "eval_loop (t # ts) payload acc =
     (case acc of (pass, fail) \<Rightarrow>
        (let actual = evaluateRule (rule t) payload;
             ok = (actual = expect t)
         in eval_loop ts payload (if ok then (pass + 1, fail) else (pass, fail + 1))))"

record eval_summary =
  pass :: nat
  fail :: nat
  rollback :: bool

definition run_eval :: "Task list \<Rightarrow> string \<Rightarrow> eval_summary" where
  "run_eval tasks payload =
     (case eval_loop tasks payload (0, 0) of
        (passed, failed) \<Rightarrow> \<lparr>pass = passed, fail = failed, rollback = (failed > 0)\<rparr>)"

section \<open>Sample data of the sources\<close>

text \<open>The constant \<open>sampleHL7Message\<close> of src/scripts/hl7-ingest.ts, four lines.\<close>

definition sampleHL7Message :: string where
  "sampleHL7Message =
     ''MSH|^~'' @ [CHR 0x5C] @ ''&|SENDING_APP|SENDING_FACILITY|RECEIVING_APP|RECEIVING_FACILITY|20230813110800||ADT^A01|MSG123456|P|2.5''
     @ [CHR 0x0A] @ ''EVN||202308131108''
     @ [CHR 0x0A] @ ''PID|1||MRN123456^^^HOSPITAL^MR||DOE^JOHN^||19800101|M|||123 MAIN ST^^ANYTOWN^ST^12345||(555)123-4567||||||||||''
     @ [CHR 0x0A] @ ''PV1|1|I|ICU^101^01||||12345^SMITH^JANE^M^^^DR|||||||||||||||||||||||202308131100''"

text \<open>A discharge message (ADT^A03), and a message with neither MSH nor PID nor PV1.\<close>

definition discharge_message :: string where
  "discharge_message =
     ''MSH|^~'' @ [CHR 0x5C] @ ''&|SENDING_APP|SENDING_FACILITY|FACILITY_001|RECEIVING_FACILITY|20230813110800||ADT^A03|MSG123457|P|2.5''
     @ [CHR 0x0A] @ ''PID|1||MRN123456||DOE^JOHN^||19800101|M''"

definition event_only_message :: string where
  "event_only_message = ''EVN||202308131108''"

text \<open>
  The one element of \<open>eventQueue\<close> in the first orchestrator script; its two clock
  strings come from the environment.
\<close>

definition sample_event :: "run_env \<Rightarrow> NormalizedEvent" where
  "sample_event env =
     \<lparr>ev_id = ''evt_12345_sample1'',
      ev_type = Admission,
      patientId = ''MRN123456'',
      facilityId = ''FACILITY_001'',
      timestamp = iso_timestamp env,
      data = \<lparr>
        messageType = ''ADT^A01'',
        patientMRN = ''MRN123456'',
        patientName = \<lparr>family = ''DOE'', given = ''JOHN''\<rparr>,
        patientDOB = ''19800101'',
        patientGender = ''M'',
        location = ''ICU^101^01'',
        attendingPhysician = ''12345^SMITH^JANE^M^^^DR''\<rparr>,
      metadata = \<lparr>
        originalHL7 = ''MSH|^~'' @ [CHR 0x5C] @ ''&|...'',
        processedAt = iso_processedAt env,
        source = ''hl7-ingest''\<rparr>\<rparr>"

text \<open>Two runs' worth of environment readings, and an event that fails all three policies.\<close>

definition env_run1 :: run_env where
  "env_run1 =
     \<lparr>now_ms = 1691924880000, random36 = ''0.4fzyo82mvyr'',
      iso_timestamp = ''2023-08-13T11:08:00.000Z'',
      iso_processedAt = ''2023-08-13T11:08:00.001Z''\<rparr>"

definition env_run2 :: run_env where
  "env_run2 =
     \<lparr>now_ms = 1691924885000, random36 = ''0.k2j8x1qpz7c'',
      iso_timestamp = ''2023-08-13T11:08:05.000Z'',
      iso_processedAt = ''2023-08-13T11:08:05.002Z''\<rparr>"

definition rejected_event :: NormalizedEvent where
  "rejected_event =
     (sample_event env_run1)
       \<lparr>facilityId := ''FACILITY_009'',
        data := (data (sample_event env_run1))\<lparr>patientMRN := [], messageType := ''ORU^R01''\<rparr>\<rparr>"


definition nameless_event :: unchecked_event where
  "nameless_event =
     \<lparr>u_facilityId = JString ''FACILITY_001'',
      u_data = Some \<lparr>u_messageType = JString ''ADT^A01'',
                     u_patientMRN = JString ''MRN123456'',
                     u_patientName = None\<rparr>\<rparr>"

section \<open>Properties of the queue\<close>

lemma seen_enqueue_mono: "seen s \<subseteq> seen (snd (enqueue item s))"
  by (auto simp: enqueue_def)

lemma seen_dequeue: "seen (snd (dequeue s)) = seen s"
  by (simp add: dequeue_def split: list.split)

lemma seen_queue_step: "seen s \<subseteq> seen (queue_step op s)"
  by (cases op) (use seen_enqueue_mono in \<open>auto simp: seen_dequeue\<close>)

lemma seen_queue_run: "seen s \<subseteq> seen (queue_run ops s)"
proof (induction ops arbitrary: s)
  case Nil
  show ?case by simp
next
  case (Cons op ops)
  have "seen s \<subseteq> seen (queue_step op s)" by (rule seen_queue_step)
  also have "\<dots> \<subseteq> seen (queue_run ops (queue_step op s))" by (rule Cons.IH)
  finally show ?case by simp
qed

lemma enqueue_true_records: "fst (enqueue item s) \<Longrightarrow> item_id item \<in> seen (snd (enqueue item s))"
  by (simp add: enqueue_def split: if_splits)

lemma enqueue_seen_rejects: "item_id item \<in> seen s \<Longrightarrow> enqueue item s = (False, s)"
  by (simp add: enqueue_def)

text \<open>
  C1. Start from the empty queue and run any operations \<open>before\<close>. If \<open>enqueue item\<close> then
  returns true, then after any further operations \<open>later\<close> (enqueues and dequeues alike),
  enqueuing any item with the same id returns false and leaves the whole state, the queue
  contents and the size as they were.
\<close>

theorem enqueue_idempotent:
  assumes "enqueue item (queue_run before init_queue) = (True, s1)"
    and "item_id item' = item_id item"
    and "s2 = queue_run later s1"
  shows "enqueue item' s2 = (False, s2)
       \<and> q (snd (enqueue item' s2)) = q s2
       \<and> size_q (snd (enqueue item' s2)) = size_q s2"
proof -
  from assms(1) have "item_id item \<in> seen s1"
    using enqueue_true_records [of item "queue_run before init_queue"] by simp
  with assms(3) have "item_id item \<in> seen s2"
    using seen_queue_run [of s1 later] by auto
  with assms(2) have "enqueue item' s2 = (False, s2)"
    by (simp add: enqueue_seen_rejects)
  then show ?thesis by simp
qed

theorem enqueue_idempotent_witness:
  "enqueue \<lparr>item_id = ''a'', item_type = ''HL7v2'', item_payload = (1::nat)\<rparr> (queue_run [] init_queue)
     = (True, \<lparr>seen = {''a''}, q = [\<lparr>item_id = ''a'', item_type = ''HL7v2'', item_payload = 1\<rparr>]\<rparr>)
   \<and> queue_run [Dequeue] \<lparr>seen = {''a''}, q = [\<lparr>item_id = ''a'', item_type = ''HL7v2'', item_payload = (1::nat)\<rparr>]\<rparr>
     = \<lparr>seen = {''a''}, q = []\<rparr>
   \<and> enqueue \<lparr>item_id = ''a'', item_type = ''ORU'', item_payload = (2::nat)\<rparr> \<lparr>seen = {''a''}, q = []\<rparr>
     = (False, \<lparr>seen = {''a''}, q = []\<rparr>)
   \<and> size_q (snd (enqueue \<lparr>item_id = ''a'', item_type = ''ORU'', item_payload = (2::nat)\<rparr> \<lparr>seen = {''a''}, q = []\<rparr>)) = 0"
proof -
  let ?a = "\<lparr>item_id = ''a'', item_type = ''HL7v2'', item_payload = (1::nat)\<rparr>"
  let ?a' = "\<lparr>item_id = ''a'', item_type = ''ORU'', item_payload = (2::nat)\<rparr>"
  let ?s1 = "\<lparr>seen = {''a''}, q = [?a]\<rparr>"
  let ?s2 = "\<lparr>seen = {''a''}, q = ([] :: nat QueueItem list)\<rparr>"
  have h1: "enqueue ?a (queue_run [] init_queue) = (True, ?s1)"
    by (simp add: enqueue_def init_queue_def)
  have h2: "item_id ?a' = item_id ?a" by simp
  have h3: "?s2 = queue_run [Dequeue] ?s1" by (simp add: dequeue_def)
  have h4: "queue_run [Dequeue] ?s1 = ?s2" by (simp add: dequeue_def)
  from enqueue_idempotent [OF h1 h2 h3] h1 h4 show ?thesis
    by (simp add: size_q_def)
qed

lemma enqueue_all_fresh:
  "distinct (map item_id items) \<Longrightarrow> set (map item_id items) \<inter> seen s = {} \<Longrightarrow>
   enqueue_all items s =
     (replicate (length items) True,
      s\<lparr>seen := seen s \<union> set (map item_id items), q := q s @ items\<rparr>)"
proof (induction items arbitrary: s)
  case Nil
  show ?case by simp
next
  case (Cons item items)
  let ?s' = "s\<lparr>seen := insert (item_id item) (seen s), q := q s @ [item]\<rparr>"
  from Cons.prems have fresh: "item_id item \<notin> seen s" by auto
  then have step: "enqueue item s = (True, ?s')" by (simp add: enqueue_def)
  from Cons.prems have "distinct (map item_id items)"
    and "set (map item_id items) \<inter> seen ?s' = {}" by auto
  then have "enqueue_all items ?s' =
     (replicate (length items) True,
      ?s'\<lparr>seen := seen ?s' \<union> set (map item_id items), q := q ?s' @ items\<rparr>)"
    by (rule Cons.IH)
  with step show ?case by simp
qed

lemma dequeue_n_drain:
  "dequeue_n n s =
     (map Some (take n (q s)) @ replicate (n - length (q s)) None, s\<lparr>q := drop n (q s)\<rparr>)"
proof (induction n arbitrary: s)
  case 0
  show ?case by simp
next
  case (Suc n)
  show ?case
  proof (cases "q s")
    case Nil
    then have "dequeue s = (None, s)" by (simp add: dequeue_def)
    with Nil Suc.IH [of s] show ?thesis by (simp add: replicate_app_Cons_same)
  next
    case (Cons x xs)
    then have "dequeue s = (Some x, s\<lparr>q := xs\<rparr>)" by (simp add: dequeue_def)
    with Cons Suc.IH [of "s\<lparr>q := xs\<rparr>"] show ?thesis by simp
  qed
qed

text \<open>
  C5. The queue is first in, first out. From any state, enqueuing items whose ids are
  distinct and not yet seen succeeds for each and appends them to the queue in order;
  \<open>dequeue\<close> then returns and removes the oldest item still queued; dequeuing as often
  as there are items yields the items queued before, then the new ones, in the order of
  their arrival, and on the emptied queue \<open>dequeue\<close> signals empty. From the initial
  state, items with ids \<open>a\<close>, \<open>b\<close>, \<open>c\<close> come back as \<open>a\<close>, then \<open>b\<close>, then \<open>c\<close>.
\<close>

theorem queue_fifo:
  assumes "distinct (map item_id items)"
    and "set (map item_id items) \<inter> seen s = {}"
    and "enqueue_all items s = (rs, s1)"
    and "dequeue_n (length (q s) + length items) s1 = (ds, s2)"
  shows "rs = replicate (length items) True
       \<and> q s1 = q s @ items
       \<and> ds = map Some (q s @ items)
       \<and> dequeue s1 = (case q s @ items of [] \<Rightarrow> (None, s1) | x # xs \<Rightarrow> (Some x, s1\<lparr>q := xs\<rparr>))
       \<and> q s2 = []
       \<and> dequeue s2 = (None, s2)"
proof -
  from assms(1-3) have rs: "rs = replicate (length items) True"
    and s1: "s1 = s\<lparr>seen := seen s \<union> set (map item_id items), q := q s @ items\<rparr>"
    using enqueue_all_fresh [of items s] by simp_all
  then have q1: "q s1 = q s @ items" by simp
  from assms(4) q1 have ds: "ds = map Some (q s @ items)" and s2: "s2 = s1\<lparr>q := []\<rparr>"
    using dequeue_n_drain [of "length (q s) + length items" s1] by simp_all
  from q1 have "dequeue s1 = (case q s @ items of [] \<Rightarrow> (None, s1) | x # xs \<Rightarrow> (Some x, s1\<lparr>q := xs\<rparr>))"
    by (simp add: dequeue_def)
  moreover from s2 have "q s2 = []" and "dequeue s2 = (None, s2)" by (simp_all add: dequeue_def)
  ultimately show ?thesis using rs q1 ds by simp
qed

theorem queue_fifo_witness:
  "enqueue_all
     [\<lparr>item_id = ''a'', item_type = ''HL7v2'', item_payload = (10::nat)\<rparr>,
      \<lparr>item_id = ''b'', item_type = ''HL7v2'', item_payload = 20\<rparr>,
      \<lparr>item_id = ''c'', item_type = ''HL7v2'', item_payload = 30\<rparr>] init_queue
     = ([True, True, True],
        \<lparr>seen = {''a'', ''b'', ''c''},
         q = [\<lparr>item_id = ''a'', item_type = ''HL7v2'', item_payload = 10\<rparr>,
              \<lparr>item_id = ''b'', item_type = ''HL7v2'', item_payload = 20\<rparr>,
              \<lparr>item_id = ''c'', item_type = ''HL7v2'', item_payload = 30\<rparr>]\<rparr>)
   \<and> dequeue_n 3
        \<lparr>seen = {''a'', ''b'', ''c''},
         q = [\<lparr>item_id = ''a'', item_type = ''HL7v2'', item_payload = (10::nat)\<rparr>,
              \<lparr>item_id = ''b'', item_type = ''HL7v2'', item_payload = 20\<rparr>,
              \<lparr>item_id = ''c'', item_type = ''HL7v2'', item_payload = 30\<rparr>]\<rparr>
     = ([Some \<lparr>item_id = ''a'', item_type = ''HL7v2'', item_payload = 10\<rparr>,
         Some \<lparr>item_id = ''b'', item_type = ''HL7v2'', item_payload = 20\<rparr>,
         Some \<lparr>item_id = ''c'', item_type = ''HL7v2'', item_payload = 30\<rparr>],
        \<lparr>seen = {''a'', ''b'', ''c''}, q = []\<rparr>)
   \<and> dequeue \<lparr>seen = {''a'', ''b'', ''c''}, q = ([] :: nat QueueItem list)\<rparr>
     = (None, \<lparr>seen = {''a'', ''b'', ''c''}, q = []\<rparr>)"
proof -
  let ?a = "\<lparr>item_id = ''a'', item_type = ''HL7v2'', item_payload = (10::nat)\<rparr>"
  let ?b = "\<lparr>item_id = ''b'', item_type = ''HL7v2'', item_payload = (20::nat)\<rparr>"
  let ?c = "\<lparr>item_id = ''c'', item_type = ''HL7v2'', item_payload = (30::nat)\<rparr>"
  let ?s3 = "\<lparr>seen = {''a'', ''b'', ''c''}, q = [?a, ?b, ?c]\<rparr>"
  let ?s4 = "\<lparr>seen = {''a'', ''b'', ''c''}, q = ([] :: nat QueueItem list)\<rparr>"
  have h1: "distinct (map item_id [?a, ?b, ?c])" by simp
  have h2: "set (map item_id [?a, ?b, ?c]) \<inter> seen (init_queue :: nat queue_state) = {}"
    by (simp add: init_queue_def)
  have h3: "enqueue_all [?a, ?b, ?c] init_queue = ([True, True, True], ?s3)"
    by (simp add: enqueue_def init_queue_def insert_commute)
  have d3: "dequeue_n 3 ?s3 = ([Some ?a, Some ?b, Some ?c], ?s4)"
    by (simp add: dequeue_def numeral_3_eq_3)
  have h4: "dequeue_n (length (q (init_queue :: nat queue_state)) + length [?a, ?b, ?c]) ?s3
      = ([Some ?a, Some ?b, Some ?c], ?s4)"
    by (simp add: init_queue_def dequeue_def)
  from queue_fifo [OF h1 h2 h3 h4] have "dequeue ?s4 = (None, ?s4)" by simp
  with h3 d3 show ?thesis by simp
qed

section \<open>Properties of the policy gate\<close>

lemma policy_loop_find:
  "policy_loop ps =
     (case find (\<lambda>p. \<not> pcheck p ()) ps of
        None \<Rightarrow> None
      | Some p \<Rightarrow>
          Some \<lparr>allowed = False, reason = preason p,
                result_metadata = [(''violatedPolicy'', MString (pname p))]\<rparr>)"
  by (induction ps) simp_all

lemma validateEventPolicy_chain:
  "validateEventPolicy event =
     (if patientMRN (data event) = [] then
        \<lparr>allowed = False, reason = ''Patient MRN is required'',
         result_metadata = [(''violatedPolicy'', MString ''patient-mrn-required'')]\<rparr>
      else if \<not> includes_str (messageType (data event)) ''ADT'' then
        \<lparr>allowed = False, reason = ''Invalid message type - must be ADT'',
         result_metadata = [(''violatedPolicy'', MString ''valid-message-type'')]\<rparr>
      else if facilityId event \<noteq> ''FACILITY_001'' \<and> facilityId event \<noteq> ''FACILITY_002'' then
        \<lparr>allowed = False, reason = ''Facility not in whitelist'',
         result_metadata = [(''violatedPolicy'', MString ''facility-whitelist'')]\<rparr>
      else
        \<lparr>allowed = True, reason = ''All policies passed'',
         result_metadata = [(''policiesChecked'', MNumber 3)]\<rparr>)"
proof -
  have "includes_str [] ''ADT'' = False" by simp
  then show ?thesis
    by (cases "messageType (data event) = []") (simp_all add: validateEventPolicy_def policies_def)
qed

text \<open>
  C2. The gate holds its three predicates in the order patient-mrn-required,
  valid-message-type, facility-whitelist. Either some predicate fails, and then the result
  is a denial carrying the reason and the name of the first one that fails, all earlier
  ones passing, whatever the later ones would say; or all pass, and the result is allowed
  with \<open>policiesChecked\<close> 3. Written out on the fields of the event: an empty MRN is
  reported first, then a message type without \<open>ADT\<close>, then a facility outside the list.
\<close>

theorem validateEventPolicy_first_violation:
  "map pname (policies event) =
     [''patient-mrn-required'', ''valid-message-type'', ''facility-whitelist'']
   \<and> ((\<exists>i<length (policies event).
          \<not> pcheck (policies event ! i) ()
          \<and> (\<forall>j<i. pcheck (policies event ! j) ())
          \<and> validateEventPolicy event =
              \<lparr>allowed = False, reason = preason (policies event ! i),
               result_metadata = [(''violatedPolicy'', MString (pname (policies event ! i)))]\<rparr>)
      \<or> ((\<forall>i<length (policies event). pcheck (policies event ! i) ())
          \<and> validateEventPolicy event =
              \<lparr>allowed = True, reason = ''All policies passed'',
               result_metadata = [(''policiesChecked'', MNumber 3)]\<rparr>))
   \<and> validateEventPolicy event =
       (if patientMRN (data event) = [] then
          \<lparr>allowed = False, reason = ''Patient MRN is required'',
           result_metadata = [(''violatedPolicy'', MString ''patient-mrn-required'')]\<rparr>
        else if \<not> includes_str (messageType (data event)) ''ADT'' then
          \<lparr>allowed = False, reason = ''Invalid message type - must be ADT'',
           result_metadata = [(''violatedPolicy'', MString ''valid-message-type'')]\<rparr>
        else if facilityId event \<noteq> ''FACILITY_001'' \<and> facilityId event \<noteq> ''FACILITY_002'' then
          \<lparr>allowed = False, reason = ''Facility not in whitelist'',
           result_metadata = [(''violatedPolicy'', MString ''facility-whitelist'')]\<rparr>
        else
          \<lparr>allowed = True, reason = ''All policies passed'',
           result_metadata = [(''policiesChecked'', MNumber 3)]\<rparr>)"
proof -
  let ?ps = "policies event"
  have names: "map pname ?ps =
     [''patient-mrn-required'', ''valid-message-type'', ''facility-whitelist'']"
    by (simp add: policies_def)
  have len: "length ?ps = 3" by (simp add: policies_def)
  have loop: "(\<exists>i<length ?ps.
          \<not> pcheck (?ps ! i) ()
          \<and> (\<forall>j<i. pcheck (?ps ! j) ())
          \<and> validateEventPolicy event =
              \<lparr>allowed = False, reason = preason (?ps ! i),
               result_metadata = [(''violatedPolicy'', MString (pname (?ps ! i)))]\<rparr>)
      \<or> ((\<forall>i<length ?ps. pcheck (?ps ! i) ())
          \<and> validateEventPolicy event =
              \<lparr>allowed = True, reason = ''All policies passed'',
               result_metadata = [(''policiesChecked'', MNumber 3)]\<rparr>)"
  proof (cases "find (\<lambda>p. \<not> pcheck p ()) ?ps")
    case None
    then have "\<forall>i<length ?ps. pcheck (?ps ! i) ()"
      by (auto simp: find_None_iff)
    moreover from None len have "validateEventPolicy event =
        \<lparr>allowed = True, reason = ''All policies passed'',
         result_metadata = [(''policiesChecked'', MNumber 3)]\<rparr>"
      by (simp add: validateEventPolicy_def policy_loop_find)
    ultimately show ?thesis by blast
  next
    case (Some p)
    then obtain i where i: "i < length ?ps" "\<not> pcheck (?ps ! i) ()" "p = ?ps ! i"
      "\<forall>j<i. pcheck (?ps ! j) ()"
      by (auto simp: find_Some_iff)
    from Some i(3) have "validateEventPolicy event =
        \<lparr>allowed = False, reason = preason (?ps ! i),
         result_metadata = [(''violatedPolicy'', MString (pname (?ps ! i)))]\<rparr>"
      by (simp add: validateEventPolicy_def policy_loop_find)
    with i show ?thesis by blast
  qed
  from names loop validateEventPolicy_chain [of event] show ?thesis by blast
qed

theorem validateEventPolicy_first_violation_witness:
  "\<not> pcheck (policies rejected_event ! 0) ()
   \<and> \<not> pcheck (policies rejected_event ! 1) ()
   \<and> \<not> pcheck (policies rejected_event ! 2) ()
   \<and> validateEventPolicy rejected_event =
       \<lparr>allowed = False, reason = ''Patient MRN is required'',
        result_metadata = [(''violatedPolicy'', MString ''patient-mrn-required'')]\<rparr>
   \<and> validateEventPolicy (sample_event env_run1) =
       \<lparr>allowed = True, reason = ''All policies passed'',
        result_metadata = [(''policiesChecked'', MNumber 3)]\<rparr>"
  using validateEventPolicy_first_violation [of rejected_event]
    validateEventPolicy_first_violation [of "sample_event env_run1"]
  by (simp add: rejected_event_def sample_event_def policies_def)

section \<open>Properties of the orchestrator\<close>

text \<open>On an event of the declared type the run-time evaluation is the typed one and never throws.\<close>

lemma validate_runtime_typed:
  "validateEventPolicy_runtime (as_unchecked ev) = Inr (validateEventPolicy ev)"
proof -
  have "includes_str [] ''ADT'' = False" by simp
  then show ?thesis
    by (cases "messageType (data ev) = []")
      (simp_all add: validateEventPolicy_runtime_def runtime_policies_def as_unchecked_def
        js_truthy_def js_length_positive_def validateEventPolicy_chain)
qed

lemma readable_typed: "readable (as_unchecked ev)"
  by (simp add: readable_def as_unchecked_def)


lemma processEvent_unreadable: "\<not> readable ev \<Longrightarrow> processEvent ev st = Inl TypeError"
  by (cases st) (simp add: readable_def processEvent_def split: option.splits)



lemma processEvent_accepted:
  "readable ev \<Longrightarrow> accepted ev \<Longrightarrow>
   processEvent ev (m, h) =
     Inr (m\<lparr>successCount := successCount m + 1, eventsProcessed := eventsProcessed m + 1\<rparr>,
          inc ''processed'' h)"
  by (auto simp: readable_def accepted_def processEvent_def split: option.splits sum.splits)



text \<open>
  An event whose \<open>data.patientName\<close> cannot be read throws before the \<open>try\<close> block:
  the loop ends there, with the events after it unprocessed.
\<close>

lemma unreadable_event_aborts:
  "\<not> readable ev \<Longrightarrow> process_events (ev # events) st = Inl TypeError"
  by (simp add: processEvent_unreadable)

lemma nameless_event_aborts:
  "runOrchestrator
     [as_unchecked (sample_event env_run1), nameless_event, as_unchecked (sample_event env_run2)]
     init_metrics = Inl TypeError"
proof -
  have a: "accepted (as_unchecked (sample_event env))" for env
    by (simp add: accepted_def validate_runtime_typed validateEventPolicy_chain sample_event_def)
  have n: "\<not> readable nameless_event"
    by (simp add: readable_def nameless_event_def)
  show ?thesis
    by (simp add: runOrchestrator_def processEvent_accepted [OF readable_typed a]
        processEvent_unreadable [OF n])
qed




section \<open>Properties of the metrics sink\<close>

lemma js_add1_ge: "n \<le> js_add1 n"
  by (simp add: js_add1_def)

lemma count_le_trans: "count_le a b \<Longrightarrow> count_le b c \<Longrightarrow> count_le a c"
  by (induction a b rule: count_le.induct; cases c rule: option.exhaust)
    (auto elim: count_le.elims)

lemma count_le_right: "count_le a b \<Longrightarrow> count_le b b"
  by (induction a b rule: count_le.induct) simp_all

lemma get_prop_ordinary: "key \<notin> set object_prototype_keys \<Longrightarrow> get_prop c key = c key"
  by (cases "c key") (simp_all add: get_prop_def)

lemma bump_other: "key' \<noteq> key \<Longrightarrow> bump c key' key = c key"
  by (simp add: bump_def Let_def)

lemma bump_ordinary:
  assumes "key \<notin> set object_prototype_keys" and "count_le (c key) (c key)"
  shows "count_le (c key) (bump c key key)"
proof -
  from assms(1) have np: "key \<noteq> ''__proto__''"
    by (auto simp: object_prototype_keys_def)
  show ?thesis
  proof (cases "c key")
    case None
    with assms(1) np show ?thesis
      by (simp add: bump_def get_prop_def plus1_def)
  next
    case (Some v)
    with assms(2) obtain n where "v = Num n"
      by (cases v) simp_all
    with Some np show ?thesis
      by (simp add: bump_def get_prop_def plus1_def js_add1_ge)
  qed
qed

lemma metrics_step_count:
  assumes "key \<notin> set object_prototype_keys"
    and "count_le (counters h key) (counters h key)"
  shows "count_le (counters h key) (counters (metrics_step op h) key)"
proof (cases op)
  case (Inc key')
  show ?thesis
  proof (cases "key' = key")
    case True
    with Inc assms show ?thesis by (simp add: inc_def bump_ordinary)
  next
    case False
    with Inc assms(2) show ?thesis by (simp add: inc_def bump_other)
  qed
next
  case Snapshot
  with assms(2) show ?thesis by (simp add: snapshot_def)
qed

lemma metrics_run_count:
  assumes "key \<notin> set object_prototype_keys"
  shows "count_le (counters h key) (counters h key) \<Longrightarrow>
         count_le (counters h key) (counters (metrics_run ops h) key)"
proof (induction ops arbitrary: h)
  case Nil
  then show ?case by simp
next
  case (Cons op ops)
  from metrics_step_count [OF assms Cons.prems]
  have step: "count_le (counters h key) (counters (metrics_step op h) key)" .
  from Cons.IH [OF count_le_right [OF step]] step show ?case
    by (auto intro: count_le_trans)
qed

lemma metrics_step_snapshots: "prefix (snapshots h) (snapshots (metrics_step op h))"
  by (cases op) (simp_all add: inc_def snapshot_def)

lemma metrics_run_snapshots: "prefix (snapshots h) (snapshots (metrics_run ops h))"
proof (induction ops arbitrary: h)
  case Nil
  show ?case by simp
next
  case (Cons op ops)
  from metrics_step_snapshots [of h op] Cons.IH [of "metrics_step op h"]
  show ?case by (auto intro: prefix_order.order_trans)
qed

lemma deref_kept:
  assumes "prefix (snapshots h) (snapshots h')" and "i < length (snapshots h)"
  shows "deref h' (SnapshotRef i) = deref h (SnapshotRef i)"
proof -
  from assms(1) obtain zs where "snapshots h' = snapshots h @ zs"
    by (auto simp: prefix_def)
  with assms(2) show ?thesis
    by (simp add: deref_def idx_def nth_append)
qed

text \<open>
  A snapshot is a copy: the call returns a new object, not the live counters, holding the
  own properties of its moment, and the object still holds exactly those after any
  increments and snapshots that follow.
\<close>

lemma snapshot_is_copy:
  assumes "snapshot (metrics_run before h0) = (r1, h1)"
    and "snapshot (metrics_run later h1) = (r2, h2)"
  shows "r1 \<noteq> CountersRef
       \<and> deref h1 r1 = Some (counters (metrics_run before h0))
       \<and> deref (metrics_run later h1) r1 = deref h1 r1
       \<and> deref h2 r1 = deref h1 r1
       \<and> deref h2 r2 = Some (counters (metrics_run later h1))"
proof -
  let ?g = "metrics_run before h0"
  let ?g' = "metrics_run later h1"
  from assms(1) have r1: "r1 = SnapshotRef (length (snapshots ?g))"
    and h1: "h1 = ?g\<lparr>snapshots := snapshots ?g @ [counters ?g]\<rparr>"
    by (simp_all add: snapshot_def)
  from assms(2) have r2: "r2 = SnapshotRef (length (snapshots ?g'))"
    and h2: "h2 = ?g'\<lparr>snapshots := snapshots ?g' @ [counters ?g']\<rparr>"
    by (simp_all add: snapshot_def)
  from r1 h1 have d1: "deref h1 r1 = Some (counters ?g)"
    by (simp add: deref_def idx_def)
  from r1 h1 have in1: "length (snapshots ?g) < length (snapshots h1)" by simp
  have p1: "prefix (snapshots h1) (snapshots ?g')" by (rule metrics_run_snapshots)
  from deref_kept [OF p1 in1] r1 have k1: "deref ?g' r1 = deref h1 r1" by simp
  from h2 have p2: "prefix (snapshots ?g') (snapshots h2)" by simp
  from p1 in1 have in2: "length (snapshots ?g) < length (snapshots ?g')"
    by (auto dest: prefix_length_le)
  from deref_kept [OF p2 in2] r1 k1 have k2: "deref h2 r1 = deref h1 r1" by simp
  from r2 h2 have d2: "deref h2 r2 = Some (counters ?g')"
    by (simp add: deref_def idx_def)
  from r1 have "r1 \<noteq> CountersRef" by simp
  with d1 k1 k2 d2 show ?thesis by simp
qed

text \<open>
  Under a key that no object inherits, the readings of two snapshots, one taken after the
  other, are counts that do not decrease.
\<close>

lemma ordinary_key_monotone:
  assumes "key \<notin> set object_prototype_keys"
    and "snapshot (metrics_run before init_metrics) = (r1, h1)"
    and "snapshot (metrics_run later h1) = (r2, h2)"
  shows "\<exists>c1 c2. deref h2 r1 = Some c1 \<and> deref h2 r2 = Some c2
           \<and> count_le (get_prop c1 key) (get_prop c2 key)"
proof -
  let ?g = "metrics_run before init_metrics"
  let ?g' = "metrics_run later h1"
  from snapshot_is_copy [OF assms(2,3)]
  have d1: "deref h2 r1 = Some (counters ?g)" and d2: "deref h2 r2 = Some (counters ?g')"
    by simp_all
  have "count_le (counters init_metrics key) (counters init_metrics key)"
    by (simp add: init_metrics_def)
  from metrics_run_count [OF assms(1) this, of before]
  have n1: "count_le (counters ?g key) (counters ?g key)" by (rule count_le_right)
  from assms(2) have c1: "counters h1 = counters ?g" by (auto simp: snapshot_def)
  from metrics_run_count [OF assms(1), of h1 later] n1 c1
  have "count_le (counters ?g key) (counters ?g' key)" by simp
  with assms(1) have "count_le (get_prop (counters ?g) key) (get_prop (counters ?g') key)"
    by (simp add: get_prop_ordinary)
  with d1 d2 show ?thesis by blast
qed

text \<open>
  C7 at the keys every object inherits. Before any increment, reading \<open>constructor\<close>
  gives the inherited function; \<open>inc\<close> of that key stores the text of the function
  with \<open>1\<close> appended, a second \<open>inc\<close> appends another \<open>1\<close>, and a snapshot holds that
  string: the readings are not counts. Under \<open>__proto__\<close> the write is ignored and two
  calls of \<open>inc\<close> leave the counters empty.
\<close>

theorem inherited_key_not_counted:
  "get_prop (counters init_metrics) ''constructor'' = Some (Inherited ''constructor'')
   \<and> counters (metrics_run [Inc ''constructor''] init_metrics) =
       [''constructor'' \<mapsto> Str ''function Object() { [native code] }1'']
   \<and> counters (metrics_run [Inc ''constructor'', Inc ''constructor''] init_metrics) =
       [''constructor'' \<mapsto> Str ''function Object() { [native code] }11'']
   \<and> snapshot (metrics_run [Inc ''constructor''] init_metrics) =
       (SnapshotRef 0,
        \<lparr>counters = [''constructor'' \<mapsto> Str ''function Object() { [native code] }1''],
         snapshots = [[''constructor'' \<mapsto> Str ''function Object() { [native code] }1'']]\<rparr>)
   \<and> \<not> count_le (get_prop (counters init_metrics) ''constructor'')
         (get_prop (counters (metrics_run [Inc ''constructor''] init_metrics)) ''constructor'')
   \<and> counters (metrics_run [Inc ''__proto__'', Inc ''__proto__''] init_metrics) = Map.empty"
  by (simp add: init_metrics_def inc_def bump_def get_prop_def plus1_def inherited_text_def
      object_prototype_keys_def snapshot_def Let_def)

text \<open>An ordinary key, for comparison: \<open>processed\<close> counts 1, then 2, and the first snapshot keeps its 1.\<close>

lemma processed_counts:
  "snapshot (metrics_run [Inc ''processed''] init_metrics)
     = (SnapshotRef 0,
        \<lparr>counters = [''processed'' \<mapsto> Num 1], snapshots = [[''processed'' \<mapsto> Num 1]]\<rparr>)
   \<and> deref (metrics_run [Inc ''processed'', Inc ''pass'']
               \<lparr>counters = [''processed'' \<mapsto> Num 1], snapshots = [[''processed'' \<mapsto> Num 1]]\<rparr>)
        (SnapshotRef 0) = Some [''processed'' \<mapsto> Num 1]
   \<and> get_prop (counters (metrics_run [Inc ''processed'', Inc ''pass'']
               \<lparr>counters = [''processed'' \<mapsto> Num 1], snapshots = [[''processed'' \<mapsto> Num 1]]\<rparr>))
        ''processed'' = Some (Num 2)"
proof -
  have pow: "(2::nat) ^ 53 = 9007199254740992" by simp
  have one: "js_add1 0 = 1" and two: "js_add1 (Suc 0) = 2"
    unfolding js_add1_def pow by simp_all
  show ?thesis
    by (simp add: init_metrics_def inc_def bump_def get_prop_def plus1_def
        object_prototype_keys_def snapshot_def deref_def idx_def Let_def one two)
qed

section \<open>Properties of the eval harness\<close>

lemma eval_loop_counts:
  "eval_loop tasks payload (p, f) =
     (p + length (filter (\<lambda>t. evaluateRule (rule t) payload = expect t) tasks),
      f + length (filter (\<lambda>t. evaluateRule (rule t) payload \<noteq> expect t) tasks))"
  by (induction tasks arbitrary: p f) (simp_all add: Let_def)

lemma run_eval_counts:
  "run_eval tasks payload =
     \<lparr>pass = length (filter (\<lambda>t. evaluateRule (rule t) payload = expect t) tasks),
      fail = length (filter (\<lambda>t. evaluateRule (rule t) payload \<noteq> expect t) tasks),
      rollback = (\<exists>t \<in> set tasks. evaluateRule (rule t) payload \<noteq> expect t)\<rparr>"
  by (simp add: run_eval_def eval_loop_counts filter_empty_conv)

text \<open>
  C8. For every list of tasks and every payload, \<open>pass\<close> is the number of tasks whose
  rule evaluates to its expectation, \<open>fail\<close> the number of the others, the two add up to
  the number of tasks, and \<open>rollback\<close> is true exactly when some task fails. Two tasks
  that expect true, the first rule holding and the second not, give PASS=1 FAIL=1
  rollback=true; tasks that all meet their expectation give FAIL=0 rollback=false.
\<close>

theorem eval_harness_counts:
  "pass (run_eval tasks payload) =
     length (filter (\<lambda>t. evaluateRule (rule t) payload = expect t) tasks)
   \<and> fail (run_eval tasks payload) =
     length (filter (\<lambda>t. evaluateRule (rule t) payload \<noteq> expect t) tasks)
   \<and> pass (run_eval tasks payload) + fail (run_eval tasks payload) = length tasks
   \<and> rollback (run_eval tasks payload) =
     (\<exists>t \<in> set tasks. evaluateRule (rule t) payload \<noteq> expect t)
   \<and> (evaluateRule r1 payload \<and> \<not> evaluateRule r2 payload \<longrightarrow>
        run_eval [\<lparr>name = n1, rule = r1, expect = True\<rparr>,
                  \<lparr>name = n2, rule = r2, expect = True\<rparr>] payload
          = \<lparr>pass = 1, fail = 1, rollback = True\<rparr>)
   \<and> ((\<forall>t \<in> set tasks. evaluateRule (rule t) payload = expect t) \<longrightarrow>
        run_eval tasks payload = \<lparr>pass = length tasks, fail = 0, rollback = False\<rparr>)"
proof -
  have sum: "length (filter (\<lambda>t. evaluateRule (rule t) payload = expect t) tasks)
      + length (filter (\<lambda>t. evaluateRule (rule t) payload \<noteq> expect t) tasks) = length tasks"
    using sum_length_filter_compl [of "\<lambda>t. evaluateRule (rule t) payload = expect t" tasks]
    by simp
  have two: "evaluateRule r1 payload \<and> \<not> evaluateRule r2 payload \<longrightarrow>
        run_eval [\<lparr>name = n1, rule = r1, expect = True\<rparr>,
                  \<lparr>name = n2, rule = r2, expect = True\<rparr>] payload
          = \<lparr>pass = 1, fail = 1, rollback = True\<rparr>"
    by (simp add: run_eval_def)
  have all: "(\<forall>t \<in> set tasks. evaluateRule (rule t) payload = expect t) \<longrightarrow>
        run_eval tasks payload = \<lparr>pass = length tasks, fail = 0, rollback = False\<rparr>"
    by (simp add: run_eval_counts)
  from sum two all show ?thesis
    by (simp add: run_eval_counts)
qed

theorem eval_harness_counts_witness:
  "evaluateRule ''contains:HL7'' ''MSH|HL7|ADT^A01''
   \<and> \<not> evaluateRule ''contains:DISCHARGE'' ''MSH|HL7|ADT^A01''
   \<and> run_eval [\<lparr>name = ''Medication reconciliation'', rule = ''contains:HL7'', expect = True\<rparr>,
               \<lparr>name = ''Discharge summary extraction'', rule = ''contains:DISCHARGE'',
                expect = True\<rparr>] ''MSH|HL7|ADT^A01''
       = \<lparr>pass = 1, fail = 1, rollback = True\<rparr>
   \<and> run_eval [\<lparr>name = ''Medication reconciliation'', rule = ''contains:HL7'', expect = True\<rparr>,
               \<lparr>name = ''Discharge summary extraction'', rule = ''contains:DISCHARGE'',
                expect = False\<rparr>] ''MSH|HL7|ADT^A01''
       = \<lparr>pass = 2, fail = 0, rollback = False\<rparr>"
proof -
  let ?p = "''MSH|HL7|ADT^A01''"
  let ?t1 = "\<lparr>name = ''Medication reconciliation'', rule = ''contains:HL7'', expect = True\<rparr>"
  let ?t2 = "\<lparr>name = ''Discharge summary extraction'', rule = ''contains:DISCHARGE'',
                expect = False\<rparr>"
  have a: "evaluateRule ''contains:HL7'' ?p"
    by (simp add: evaluateRule_def match_contains_def ascii_lower_def line_terminator_def)
  have b: "\<not> evaluateRule ''contains:DISCHARGE'' ?p"
    by (simp add: evaluateRule_def match_contains_def ascii_lower_def line_terminator_def)
  from a b have ok: "\<forall>t \<in> set [?t1, ?t2]. evaluateRule (rule t) ?p = expect t" by simp
  from a b ok
    eval_harness_counts [of "[?t1, ?t2]" ?p "''contains:HL7''" "''contains:DISCHARGE''"
      "''Medication reconciliation''" "''Discharge summary extraction''"]
  show ?thesis by simp
qed

lemma match_contains_pattern: "\<not> contains_pattern r \<Longrightarrow> match_contains r = None"
  by (auto simp: contains_pattern_def match_contains_def)

text \<open>
  C10. A rule that is not \<open>contains:\<close> (in either case) followed by a non-empty suffix
  evaluates to false on every payload, the evaluation being a total function with no
  failing branch; so a task with such a rule is counted as a pass exactly when it
  expects false, and as a fail otherwise.
\<close>

theorem malformed_rule_is_false:
  assumes "\<not> contains_pattern (rule t)"
  shows "evaluateRule (rule t) payload = False
       \<and> eval_loop (t # ts) payload (p, f) =
           eval_loop ts payload (if expect t then (p, f + 1) else (p + 1, f))
       \<and> run_eval [t] payload =
           (if expect t then \<lparr>pass = 0, fail = 1, rollback = True\<rparr>
            else \<lparr>pass = 1, fail = 0, rollback = False\<rparr>)"
proof -
  from assms have e: "evaluateRule (rule t) payload = False"
    by (simp add: evaluateRule_def match_contains_pattern)
  then show ?thesis by (simp add: run_eval_def)
qed

theorem malformed_rule_is_false_witness:
  "\<not> contains_pattern ''matches:HL7''
   \<and> \<not> contains_pattern ''CONTAINS:''
   \<and> evaluateRule ''matches:HL7'' ''MSH|HL7|ADT^A01'' = False
   \<and> evaluateRule ''CONTAINS:'' ''MSH|HL7|ADT^A01'' = False
   \<and> run_eval [\<lparr>name = ''bad rule'', rule = ''matches:HL7'', expect = False\<rparr>] ''MSH|HL7|ADT^A01''
       = \<lparr>pass = 1, fail = 0, rollback = False\<rparr>
   \<and> run_eval [\<lparr>name = ''no needle'', rule = ''CONTAINS:'', expect = True\<rparr>] ''MSH|HL7|ADT^A01''
       = \<lparr>pass = 0, fail = 1, rollback = True\<rparr>"
proof -
  have a: "\<not> contains_pattern (rule \<lparr>name = ''bad rule'', rule = ''matches:HL7'', expect = False\<rparr>)"
    by (simp add: contains_pattern_def ascii_lower_def)
  have b: "\<not> contains_pattern (rule \<lparr>name = ''no needle'', rule = ''CONTAINS:'', expect = True\<rparr>)"
    by (simp add: contains_pattern_def ascii_lower_def)
  from a b malformed_rule_is_false [OF a, of "''MSH|HL7|ADT^A01''" "[]" 0 0]
    malformed_rule_is_false [OF b, of "''MSH|HL7|ADT^A01''" "[]" 0 0]
  show ?thesis by simp
qed

section \<open>Properties of the normalizer\<close>

lemma split_on_first: "\<exists>rest. split_on sep s = takeWhile (\<lambda>c. c \<noteq> sep) s # rest"
  by (induction s) auto

lemma split_on_lines: "\<exists>rest. split_on (CHR 0x0A) hl7 = first_line hl7 # rest"
  unfolding first_line_def by (rule split_on_first)




lemma decimal_digit: "n < 10 \<Longrightarrow> decimal n = [''0123456789'' ! n]"
  by (subst decimal.simps) simp

lemma decimal_more: "10 \<le> n \<Longrightarrow> decimal n = decimal (n div 10) @ [''0123456789'' ! (n mod 10)]"
  by (subst decimal.simps) simp

lemma decimal_run1: "decimal 1691924880000 = ''1691924880000''"
  by (simp add: decimal_digit decimal_more)

lemma decimal_run2: "decimal 1691924885000 = ''1691924885000''"
  by (simp add: decimal_digit decimal_more)

text \<open>What \<open>parseHL7Message\<close> returns, with the first line named.\<close>

lemma parseHL7Message_result:
  "parseHL7Message env hl7 =
     Inr \<lparr>
       ev_id = ''evt_'' @ decimal (now_ms env) @ ''_'' @ take 9 (drop 2 (random36 env)),
       ev_type =
         (if includes_str (or_else (idx (split_on CHR ''|'' (first_line hl7)) 8) ''ADT^A01'') ''A01''
          then Admission else Update),
       patientId = or_else (idx (find_segment ''PID'' (split_on (CHR 0x0A) hl7)) 3) ''unknown'',
       facilityId = or_else (idx (split_on CHR ''|'' (first_line hl7)) 4) ''FACILITY_001'',
       timestamp = iso_timestamp env,
       data = \<lparr>
         messageType = or_else (idx (split_on CHR ''|'' (first_line hl7)) 8) ''ADT^A01'',
         patientMRN = or_else (idx (find_segment ''PID'' (split_on (CHR 0x0A) hl7)) 3) [],
         patientName = \<lparr>
           family =
             or_else (idx (case idx (find_segment ''PID'' (split_on (CHR 0x0A) hl7)) 5 of
                             None \<Rightarrow> [[], []]
                           | Some s \<Rightarrow> if s = [] then [[], []] else split_on CHR ''^'' s) 0) [],
           given =
             or_else (idx (case idx (find_segment ''PID'' (split_on (CHR 0x0A) hl7)) 5 of
                             None \<Rightarrow> [[], []]
                           | Some s \<Rightarrow> if s = [] then [[], []] else split_on CHR ''^'' s) 1) []\<rparr>,
         patientDOB = or_else (idx (find_segment ''PID'' (split_on (CHR 0x0A) hl7)) 7) [],
         patientGender = or_else (idx (find_segment ''PID'' (split_on (CHR 0x0A) hl7)) 8) [],
         location = or_else (idx (find_segment ''PV1'' (split_on (CHR 0x0A) hl7)) 3) [],
         attendingPhysician = or_else (idx (find_segment ''PV1'' (split_on (CHR 0x0A) hl7)) 7) []\<rparr>,
       metadata = \<lparr>
         originalHL7 = hl7,
         processedAt = iso_processedAt env,
         source = ''hl7-ingest''\<rparr>\<rparr>"
proof -
  obtain rest where "split_on (CHR 0x0A) hl7 = first_line hl7 # rest"
    using split_on_lines by blast
  then show ?thesis
    by (simp add: parseHL7Message_def Let_def)
qed

text \<open>
  C3, as the code has it. Two runs of the normalizer on the same raw message, each with
  its own readings of the clock and of the random source, both return an event, and the
  two events have the same type, patient id, facility, data fields, original message and
  source. The \<open>timestamp\<close> and \<open>processedAt\<close> of each event are the clock readings of
  its own run, so the two events agree on them exactly when the two runs read the same
  clock strings.
\<close>

theorem normalizer_same_raw:
  "\<exists>a b. parseHL7Message env1 hl7 = Inr a \<and> parseHL7Message env2 hl7 = Inr b
     \<and> ev_type a = ev_type b
     \<and> patientId a = patientId b
     \<and> facilityId a = facilityId b
     \<and> data a = data b
     \<and> originalHL7 (metadata a) = originalHL7 (metadata b)
     \<and> source (metadata a) = source (metadata b)
     \<and> timestamp a = iso_timestamp env1 \<and> timestamp b = iso_timestamp env2
     \<and> processedAt (metadata a) = iso_processedAt env1
     \<and> processedAt (metadata b) = iso_processedAt env2
     \<and> (timestamp a = timestamp b) = (iso_timestamp env1 = iso_timestamp env2)
     \<and> (processedAt (metadata a) = processedAt (metadata b))
         = (iso_processedAt env1 = iso_processedAt env2)"
  by (simp add: parseHL7Message_result)

lemma parse_sample_run:
  "parseHL7Message env sampleHL7Message =
     Inr \<lparr>ev_id = ''evt_'' @ decimal (now_ms env) @ ''_'' @ take 9 (drop 2 (random36 env)),
          ev_type = Admission,
          patientId = ''MRN123456^^^HOSPITAL^MR'',
          facilityId = ''RECEIVING_APP'',
          timestamp = iso_timestamp env,
          data = \<lparr>messageType = ''ADT^A01'',
                  patientMRN = ''MRN123456^^^HOSPITAL^MR'',
                  patientName = \<lparr>family = ''DOE'', given = ''JOHN''\<rparr>,
                  patientDOB = ''19800101'',
                  patientGender = ''M'',
                  location = ''ICU^101^01'',
                  attendingPhysician = ''12345^SMITH^JANE^M^^^DR''\<rparr>,
          metadata = \<lparr>originalHL7 = sampleHL7Message,
                      processedAt = iso_processedAt env,
                      source = ''hl7-ingest''\<rparr>\<rparr>"
proof -
  have msh: "split_on CHR ''|'' (first_line sampleHL7Message) =
      [''MSH'', ''^~'' @ [CHR 0x5C] @ ''&'', ''SENDING_APP'', ''SENDING_FACILITY'',
       ''RECEIVING_APP'', ''RECEIVING_FACILITY'', ''20230813110800'', [], ''ADT^A01'',
       ''MSG123456'', ''P'', ''2.5'']"
    by (simp add: sampleHL7Message_def first_line_def)
  have pid: "find_segment ''PID'' (split_on (CHR 0x0A) sampleHL7Message) =
      [''PID'', ''1'', [], ''MRN123456^^^HOSPITAL^MR'', [], ''DOE^JOHN^'', [], ''19800101'',
       ''M'', [], [], ''123 MAIN ST^^ANYTOWN^ST^12345'', [], ''(555)123-4567'',
       [], [], [], [], [], [], [], [], [], []]"
    by (simp add: sampleHL7Message_def find_segment_def startsWith_def)
  have pv1: "find_segment ''PV1'' (split_on (CHR 0x0A) sampleHL7Message) =
      [''PV1'', ''1'', ''I'', ''ICU^101^01'', [], [], [], ''12345^SMITH^JANE^M^^^DR'',
       [], [], [], [], [], [], [], [], [], [], [], [], [], [], [], [], [], [], [], [], [], [],
       ''202308131100'']"
    by (simp add: sampleHL7Message_def find_segment_def startsWith_def)
  show ?thesis
    unfolding parseHL7Message_result msh pid pv1
    by (simp add: idx_def or_else_def)
qed

theorem normalizer_same_raw_witness:
  "ev_type (projr (parseHL7Message env_run1 sampleHL7Message)) = Admission
   \<and> ev_type (projr (parseHL7Message env_run2 sampleHL7Message)) = Admission
   \<and> data (projr (parseHL7Message env_run1 sampleHL7Message)) =
       data (projr (parseHL7Message env_run2 sampleHL7Message))
   \<and> timestamp (projr (parseHL7Message env_run1 sampleHL7Message)) = ''2023-08-13T11:08:00.000Z''
   \<and> timestamp (projr (parseHL7Message env_run2 sampleHL7Message)) = ''2023-08-13T11:08:05.000Z''
   \<and> timestamp (projr (parseHL7Message env_run1 sampleHL7Message))
       \<noteq> timestamp (projr (parseHL7Message env_run2 sampleHL7Message))"
  using normalizer_same_raw [of env_run1 sampleHL7Message env_run2]
  by (auto simp: parse_sample_run env_run1_def env_run2_def)

text \<open>
  The claim as the specification words it fails: two runs on the same raw message give
  events with different ids and different timestamps.
\<close>

theorem same_raw_different_event:
  "ev_id (projr (parseHL7Message env_run1 sampleHL7Message)) = ''evt_1691924880000_4fzyo82mv''
   \<and> ev_id (projr (parseHL7Message env_run2 sampleHL7Message)) = ''evt_1691924885000_k2j8x1qpz''
   \<and> timestamp (projr (parseHL7Message env_run1 sampleHL7Message)) = ''2023-08-13T11:08:00.000Z''
   \<and> timestamp (projr (parseHL7Message env_run2 sampleHL7Message)) = ''2023-08-13T11:08:05.000Z''
   \<and> parseHL7Message env_run1 sampleHL7Message \<noteq> parseHL7Message env_run2 sampleHL7Message"
  by (simp add: parse_sample_run env_run1_def env_run2_def decimal_run1 decimal_run2)




subsection \<open>Classification of the event type\<close>

lemma includes_str_sublist: "includes_str s needle \<longleftrightarrow> sublist needle s"
proof (induction s)
  case Nil
  show ?case by simp
next
  case (Cons c cs)
  then show ?case by (cases needle) (simp_all add: sublist_Cons_right)
qed

text \<open>The ESM variant classifies by the first of A01, A03, A02 that the code contains.\<close>

lemma eventType_first_match:
  "(includes_str code ''A01'' \<longrightarrow> eventType code = Admission)
   \<and> (\<not> includes_str code ''A01'' \<and> includes_str code ''A03'' \<longrightarrow> eventType code = Discharge)
   \<and> (\<not> includes_str code ''A01'' \<and> \<not> includes_str code ''A03'' \<and> includes_str code ''A02''
        \<longrightarrow> eventType code = Transfer)
   \<and> (\<not> includes_str code ''A01'' \<and> \<not> includes_str code ''A03'' \<and> \<not> includes_str code ''A02''
        \<longrightarrow> eventType code = Update)"
  by (simp add: eventType_def)

lemma esm_type_from_code:
  "ev_type (parseHL7Message_esm env hl7) =
     eventType (messageType (data (parseHL7Message_esm env hl7)))"
  by (simp add: parseHL7Message_esm_def Let_def)

text \<open>\<open>parseHL7Message\<close> of src/scripts/hl7-ingest.ts knows admissions and updates only.\<close>

lemma hl7_ingest_type:
  "parseHL7Message env hl7 = Inr ev \<Longrightarrow>
   ev_type ev = (if includes_str (messageType (data ev)) ''A01'' then Admission else Update)"
  by (auto simp: parseHL7Message_result)

text \<open>
  C6 at a discharge message. Its message type is \<open>ADT^A03\<close>, which holds \<open>A03\<close> and
  not \<open>A01\<close>: \<open>parseHL7Message\<close> of src/scripts/hl7-ingest.ts makes the event an update,
  where the ESM variant makes it a discharge.
\<close>

theorem discharge_message_classified_update:
  "messageType (data (projr (parseHL7Message env_run1 discharge_message))) = ''ADT^A03''
   \<and> includes_str ''ADT^A03'' ''A03''
   \<and> \<not> includes_str ''ADT^A03'' ''A01''
   \<and> ev_type (projr (parseHL7Message env_run1 discharge_message)) = Update
   \<and> eventType ''ADT^A03'' = Discharge
   \<and> ev_type (parseHL7Message_esm env_run1 discharge_message) = Discharge"
proof -
  have msh: "split_on CHR ''|'' (first_line discharge_message) =
      [''MSH'', ''^~'' @ [CHR 0x5C] @ ''&'', ''SENDING_APP'', ''SENDING_FACILITY'',
       ''FACILITY_001'', ''RECEIVING_FACILITY'', ''20230813110800'', [], ''ADT^A03'',
       ''MSG123457'', ''P'', ''2.5'']"
    by (simp add: discharge_message_def first_line_def)
  have old: "messageType (data (projr (parseHL7Message env_run1 discharge_message))) = ''ADT^A03''"
    "ev_type (projr (parseHL7Message env_run1 discharge_message)) = Update"
    unfolding parseHL7Message_result msh by (simp_all add: idx_def or_else_def)
  have lines: "split_lines (trim discharge_message) =
      [''MSH|^~'' @ [CHR 0x5C] @ ''&|SENDING_APP|SENDING_FACILITY|FACILITY_001|RECEIVING_FACILITY|20230813110800||ADT^A03|MSG123457|P|2.5'',
       ''PID|1||MRN123456||DOE^JOHN^||19800101|M'']"
    by (simp add: discharge_message_def trim_def js_whitespace_def)
  have esm_msh: "find_segment_esm ''MSH'' (split_lines (trim discharge_message)) =
      [''MSH'', ''^~'' @ [CHR 0x5C] @ ''&'', ''SENDING_APP'', ''SENDING_FACILITY'',
       ''FACILITY_001'', ''RECEIVING_FACILITY'', ''20230813110800'', [], ''ADT^A03'',
       ''MSG123457'', ''P'', ''2.5'']"
    unfolding lines by (simp add: find_segment_esm_def startsWith_def)
  have esm: "messageType (data (parseHL7Message_esm env_run1 discharge_message)) = ''ADT^A03''"
    by (simp add: parseHL7Message_esm_def Let_def esm_msh idx_def or_else_def)
  have cls: "eventType ''ADT^A03'' = Discharge" by (simp add: eventType_def)
  from old esm cls show ?thesis by (simp add: esm_type_from_code)
qed

subsection \<open>The ESM variant on the same questions\<close>

text \<open>
  Two runs of the ESM variant on one raw message agree on everything but the two clock
  strings, and on the id as well once the MSH line carries a control id (MSH-10).
\<close>

lemma esm_same_raw:
  "ev_type (parseHL7Message_esm env1 hl7) = ev_type (parseHL7Message_esm env2 hl7)
   \<and> patientId (parseHL7Message_esm env1 hl7) = patientId (parseHL7Message_esm env2 hl7)
   \<and> facilityId (parseHL7Message_esm env1 hl7) = facilityId (parseHL7Message_esm env2 hl7)
   \<and> data (parseHL7Message_esm env1 hl7) = data (parseHL7Message_esm env2 hl7)
   \<and> originalHL7 (metadata (parseHL7Message_esm env1 hl7)) =
       originalHL7 (metadata (parseHL7Message_esm env2 hl7))
   \<and> timestamp (parseHL7Message_esm env1 hl7) = iso_timestamp env1
   \<and> (truthy (idx (find_segment_esm ''MSH'' (split_lines (trim hl7))) 9) \<longrightarrow>
        ev_id (parseHL7Message_esm env1 hl7) = ev_id (parseHL7Message_esm env2 hl7))"
proof -
  have same: "truthy v \<Longrightarrow> or_else v d = or_else v d'" for v d d'
    by (cases v) (simp_all add: truthy_def or_else_def)
  have "truthy (idx (find_segment_esm ''MSH'' (split_lines (trim hl7))) 9) \<longrightarrow>
        ev_id (parseHL7Message_esm env1 hl7) = ev_id (parseHL7Message_esm env2 hl7)"
    using same [of "idx (find_segment_esm ''MSH'' (split_lines (trim hl7))) 9"
        "''MSG'' @ decimal (now_ms env1)" "''MSG'' @ decimal (now_ms env2)"]
    by (simp add: parseHL7Message_esm_def Let_def)
  then show ?thesis
    by (simp add: parseHL7Message_esm_def Let_def)
qed

text \<open>With no MSH, PID and PV1 line the ESM variant, too, fills in defaults that are not empty.\<close>

lemma esm_absent_defaults:
  "parseHL7Message_esm env_run1 event_only_message =
     \<lparr>ev_id = ''evt_MSG1691924880000'',
      ev_type = Admission,
      patientId = ''MRN_UNKNOWN'',
      facilityId = ''FACILITY_001'',
      timestamp = ''2023-08-13T11:08:00.000Z'',
      data = \<lparr>messageType = ''ADT^A01'', patientMRN = ''MRN_UNKNOWN'',
              patientName = \<lparr>family = [], given = []\<rparr>,
              patientDOB = [], patientGender = [], location = [],
              attendingPhysician = []\<rparr>,
      metadata = \<lparr>originalHL7 = ''EVN||202308131108'',
                  processedAt = ''2023-08-13T11:08:00.001Z'',
                  source = ''hl7-ingest''\<rparr>\<rparr>"
proof -
  have lines: "split_lines (trim event_only_message) = [''EVN||202308131108'']"
    by (simp add: event_only_message_def trim_def js_whitespace_def)
  have none: "find_segment_esm ''MSH'' [''EVN||202308131108''] = [[]]"
    "find_segment_esm ''PID'' [''EVN||202308131108''] = [[]]"
    "find_segment_esm ''PV1'' [''EVN||202308131108''] = [[]]"
    by (simp_all add: find_segment_esm_def startsWith_def)
  have now: "decimal (now_ms env_run1) = ''1691924880000''"
    by (simp add: env_run1_def decimal_run1)
  show ?thesis
    unfolding parseHL7Message_esm_def Let_def lines none now
    by (simp add: idx_def or_else_def eventType_def env_run1_def event_only_message_def)
qed

end
